theory Spec2Isabelle
  imports Main
begin

section \<open>Python values, exceptions and the outside world\<close>

text \<open>
  The program is one Python module, \<^verbatim>\<open>device_comm_full.py\<close>. Every function of it is
  embedded as a state transformer over a \<open>world\<close> that returns either a raised exception
  (\<open>Inl\<close>) or a value (\<open>Inr\<close>).

  An \<open>exn\<close> stands for an instance of Python's \<^verbatim>\<open>Exception\<close>: its class name and the
  text \<^verbatim>\<open>str(e)\<close>. These are exactly what an \<^verbatim>\<open>except Exception\<close> clause catches.
  Asynchronous signals outside that class (\<^verbatim>\<open>KeyboardInterrupt\<close>, \<^verbatim>\<open>SystemExit\<close>) are not
  part of the model.
\<close>

datatype exn = Exception string string

fun exn_str :: "exn \<Rightarrow> string" where
  "exn_str (Exception cls msg) = msg"

type_synonym path = string

datatype level = DEBUG | INFO | ERROR | CRITICAL

text \<open>The structured data handed to \<^verbatim>\<open>json.dump\<close>: a dict keeps its insertion order.\<close>

datatype json =
    JNull
  | JBool bool
  | JInt int
  | JStr string
  | JList "json list"
  | JDict "(string \<times> json) list"

text \<open>What the libraries hand back: a scanned network, a BLE advertisement, a finished process.\<close>

record net =
  ssid :: string
  bssid :: string
  signal :: int
  freq :: int

record ble_device =
  address :: string
  name :: "string option"
  rssi :: int

record completed_process =
  returncode :: int
  proc_stdout :: string
  proc_stderr :: string

text \<open>
  Opening a file for writing and dumping into it has three outcomes: the \<^verbatim>\<open>open\<close> fails
  (nothing is touched), the dump or the close fails after some prefix of the text reached
  the file, or the whole text is written.
\<close>

datatype write_outcome = OpenFails exn | WriteFails nat exn | WriteOk

text \<open>Every call that leaves the module is recorded, in order.\<close>

datatype event =
    Utcnow
  | Makedirs path
  | OpenWrite path
  | Print string
  | Input string
  | Sleep nat
  | PyWiFi
  | Interfaces
  | IfaceScan nat
  | IfaceScanResults nat
  | DiscoverDevices
  | BleakDiscover
  | BluetoothSocket
  | SockConnect string nat
  | SockSend string
  | SockRecv nat
  | SockClose
  | SubprocessRun "string list"

text \<open>
  The environment fixes how the outside world answers. Each answer may depend on the moment
  of the call (the number of calls made so far), so the same request can be answered
  differently at different times. \<open>latency\<close> is the time, in seconds, a call takes;
  \<open>base_dir\<close> is \<^verbatim>\<open>BASE_DIR\<close>, the value of \<^verbatim>\<open>os.path.expanduser("~/.scanner_logs")\<close>
  computed when the module is loaded; \<open>decode_utf8_ignore\<close> is
  \<^verbatim>\<open>bytes.decode('utf-8', errors='ignore')\<close>, which never raises; \<open>repr_str\<close> is
  \<^verbatim>\<open>repr\<close> of a string, used only in the text of a \<^verbatim>\<open>ValueError\<close>.
\<close>

record env =
  base_dir :: path
  latency :: "nat \<Rightarrow> nat"
  utcnow_isoformat :: "nat \<Rightarrow> string"
  makedirs_result :: "nat \<Rightarrow> path \<Rightarrow> exn option"
  write_result :: "nat \<Rightarrow> path \<Rightarrow> string \<Rightarrow> write_outcome"
  input_result :: "nat \<Rightarrow> exn + string"
  pywifi_result :: "nat \<Rightarrow> exn option"
  interfaces_result :: "nat \<Rightarrow> exn + nat list"
  iface_scan_result :: "nat \<Rightarrow> nat \<Rightarrow> exn option"
  iface_scan_results_result :: "nat \<Rightarrow> nat \<Rightarrow> exn + net list"
  discover_devices_result :: "nat \<Rightarrow> exn + (string \<times> string) list"
  bleak_discover_result :: "nat \<Rightarrow> exn + ble_device list"
  socket_result :: "nat \<Rightarrow> exn option"
  connect_result :: "nat \<Rightarrow> string \<Rightarrow> nat \<Rightarrow> exn option"
  send_result :: "nat \<Rightarrow> string \<Rightarrow> exn option"
  recv_result :: "nat \<Rightarrow> nat \<Rightarrow> exn + string"
  close_result :: "nat \<Rightarrow> exn option"
  decode_utf8_ignore :: "string \<Rightarrow> string"
  repr_str :: "string \<Rightarrow> string"
  subprocess_run_result :: "nat \<Rightarrow> string list \<Rightarrow> exn + completed_process"

record world =
  tick :: nat
  wall :: nat
  files :: "path \<rightharpoonup> string"
  log :: "(level \<times> string) list"
  events :: "event list"

type_synonym 'a io = "world \<Rightarrow> (exn + 'a) \<times> world"

definition io_return :: "'a \<Rightarrow> 'a io" where
  "io_return x w = (Inr x, w)"

definition io_raise :: "exn \<Rightarrow> 'a io" where
  "io_raise e w = (Inl e, w)"

text \<open>Sequencing: an exception in the first statement skips the rest.\<close>

definition io_bind :: "'a io \<Rightarrow> ('a \<Rightarrow> 'b io) \<Rightarrow> 'b io" where
  "io_bind m f w = (case m w of (Inl e, w') \<Rightarrow> (Inl e, w') | (Inr x, w') \<Rightarrow> f x w')"

text \<open>\<^verbatim>\<open>try: m  except Exception as e: h e\<close>\<close>

definition io_try :: "'a io \<Rightarrow> (exn \<Rightarrow> 'a io) \<Rightarrow> 'a io" where
  "io_try m h w = (case m w of (Inl e, w') \<Rightarrow> h e w' | (Inr x, w') \<Rightarrow> (Inr x, w'))"

definition of_result :: "exn option \<Rightarrow> exn + unit" where
  "of_result r = (case r of None \<Rightarrow> Inr () | Some e \<Rightarrow> Inl e)"

text \<open>A call to the outside: it is recorded, it takes time, and it is answered.\<close>

definition external :: "env \<Rightarrow> event \<Rightarrow> world \<Rightarrow> world" where
  "external E ev w =
     w\<lparr>tick := Suc (tick w), wall := wall w + latency E (tick w), events := events w @ [ev]\<rparr>"

definition call :: "env \<Rightarrow> event \<Rightarrow> (nat \<Rightarrow> exn + 'a) \<Rightarrow> 'a io" where
  "call E ev answer w = (answer (tick w), external E ev w)"

definition logging :: "level \<Rightarrow> string \<Rightarrow> unit io" where
  "logging lvl msg w = (Inr (), w\<lparr>log := log w @ [(lvl, msg)]\<rparr>)"

definition print :: "env \<Rightarrow> string \<Rightarrow> unit io" where
  "print E s = call E (Print s) (\<lambda>t. Inr ())"

definition input :: "env \<Rightarrow> string \<Rightarrow> string io" where
  "input E prompt = call E (Input prompt) (input_result E)"

text \<open>\<^verbatim>\<open>time.sleep(n)\<close> takes exactly \<open>n\<close> seconds.\<close>

definition sleep :: "nat \<Rightarrow> unit io" where
  "sleep n w =
     (Inr (), w\<lparr>tick := Suc (tick w), wall := wall w + n, events := events w @ [Sleep n]\<rparr>)"

section \<open>Strings, paths and numbers\<close>

text \<open>\<^verbatim>\<open>s.replace(c, d)\<close> for one-character strings \<open>c\<close> and \<open>d\<close>.\<close>

definition replace :: "char \<Rightarrow> char \<Rightarrow> string \<Rightarrow> string" where
  "replace c d s = map (\<lambda>x. if x = c then d else x) s"

text \<open>\<^verbatim>\<open>os.path.join(a, b)\<close> on POSIX.\<close>

definition path_join :: "path \<Rightarrow> path \<Rightarrow> path" where
  "path_join a b =
     (if b \<noteq> [] \<and> hd b = CHR ''/'' then b
      else if a = [] \<or> last a = CHR ''/'' then a @ b
      else a @ ''/'' @ b)"

text \<open>\<^verbatim>\<open>str.isspace\<close> on the code points below 256, and \<^verbatim>\<open>str.strip()\<close>.\<close>

definition isspace :: "char \<Rightarrow> bool" where
  "isspace c = (let n = of_char c :: nat in
     (9 \<le> n \<and> n \<le> 13) \<or> (28 \<le> n \<and> n \<le> 32) \<or> n = 133 \<or> n = 160)"

definition strip :: "string \<Rightarrow> string" where
  "strip s = rev (dropWhile isspace (rev (dropWhile isspace s)))"

definition digit_char :: "nat \<Rightarrow> char" where
  "digit_char d = char_of (48 + d)"

text \<open>The decimal digits of a natural number, most significant first.\<close>

fun digits :: "nat \<Rightarrow> string" where
  "digits n = (if n < 10 then [digit_char n] else digits (n div 10) @ [digit_char (n mod 10)])"

declare digits.simps [simp del]

text \<open>\<^verbatim>\<open>str(i)\<close> of an integer.\<close>

definition int_str :: "int \<Rightarrow> string" where
  "int_str i = (if i < 0 then CHR ''-'' # digits (nat (- i)) else digits (nat i))"

section \<open>\<^verbatim>\<open>json.dump(data, f, indent=4)\<close>\<close>

text \<open>
  The encoder of Python's \<^verbatim>\<open>json\<close> package with its defaults and \<^verbatim>\<open>indent=4\<close>:
  \<^verbatim>\<open>ensure_ascii\<close> escapes every character outside \<^verbatim>\<open>' '..'~'\<close>, the item separator
  is \<^verbatim>\<open>","\<close> followed by a newline and the indentation, the key separator is \<^verbatim>\<open>": "\<close>,
  and an empty list or dict is written \<^verbatim>\<open>[]\<close> or \<^verbatim>\<open>{}\<close>.
\<close>

definition hex_char :: "nat \<Rightarrow> char" where
  "hex_char d = (if d < 10 then char_of (48 + d) else char_of (87 + d))"

definition escape_char :: "char \<Rightarrow> string" where
  "escape_char c =
     (if c = CHR 0x5C then [CHR 0x5C, CHR 0x5C]
      else if c = CHR 0x22 then [CHR 0x5C, CHR 0x22]
      else if 32 \<le> (of_char c :: nat) \<and> (of_char c :: nat) \<le> 126 then [c]
      else if c = CHR 0x08 then [CHR 0x5C, CHR ''b'']
      else if c = CHR 0x0C then [CHR 0x5C, CHR ''f'']
      else if c = CHR 0x0A then [CHR 0x5C, CHR ''n'']
      else if c = CHR 0x0D then [CHR 0x5C, CHR ''r'']
      else if c = CHR 0x09 then [CHR 0x5C, CHR ''t'']
      else [CHR 0x5C, CHR ''u'', CHR ''0'', CHR ''0'',
            hex_char ((of_char c :: nat) div 16), hex_char ((of_char c :: nat) mod 16)])"

definition encode_basestring_ascii :: "string \<Rightarrow> string" where
  "encode_basestring_ascii s = [CHR 0x22] @ concat (map escape_char s) @ [CHR 0x22]"

definition newline_indent :: "nat \<Rightarrow> string" where
  "newline_indent lvl = CHR 0x0A # replicate (4 * lvl) CHR '' ''"

fun iterencode :: "nat \<Rightarrow> json \<Rightarrow> string"
  and iterencode_items :: "nat \<Rightarrow> json list \<Rightarrow> string"
  and iterencode_members :: "nat \<Rightarrow> (string \<times> json) list \<Rightarrow> string"
where
  "iterencode lvl JNull = ''null''"
| "iterencode lvl (JBool b) = (if b then ''true'' else ''false'')"
| "iterencode lvl (JInt i) = int_str i"
| "iterencode lvl (JStr s) = encode_basestring_ascii s"
| "iterencode lvl (JList []) = ''[]''"
| "iterencode lvl (JList (x # xs)) =
     ''['' @ newline_indent (Suc lvl) @ iterencode_items (Suc lvl) (x # xs)
       @ newline_indent lvl @ '']''"
| "iterencode lvl (JDict []) = ''{}''"
| "iterencode lvl (JDict (kv # kvs)) =
     ''{'' @ newline_indent (Suc lvl) @ iterencode_members (Suc lvl) (kv # kvs)
       @ newline_indent lvl @ ''}''"
| "iterencode_items lvl [] = []"
| "iterencode_items lvl [x] = iterencode lvl x"
| "iterencode_items lvl (x # y # ys) =
     iterencode lvl x @ '','' @ newline_indent lvl @ iterencode_items lvl (y # ys)"
| "iterencode_members lvl [] = []"
| "iterencode_members lvl [(k, v)] = encode_basestring_ascii k @ '': '' @ iterencode lvl v"
| "iterencode_members lvl ((k, v) # kv # kvs) =
     encode_basestring_ascii k @ '': '' @ iterencode lvl v @ '','' @ newline_indent lvl
       @ iterencode_members lvl (kv # kvs)"

definition json_dumps :: "json \<Rightarrow> string" where
  "json_dumps data = iterencode 0 data"

section \<open>The persistence helper\<close>

definition timestamp :: "env \<Rightarrow> string io" where
  "timestamp E = call E Utcnow (\<lambda>t. Inr (utcnow_isoformat E t))"

definition makedirs :: "env \<Rightarrow> path \<Rightarrow> unit io" where
  "makedirs E p = call E (Makedirs p) (\<lambda>t. of_result (makedirs_result E t p))"

text \<open>\<^verbatim>\<open>with open(filename, 'w') as f: json.dump(data, f, indent=4)\<close>\<close>

definition dump_to_file :: "env \<Rightarrow> path \<Rightarrow> string \<Rightarrow> unit io" where
  "dump_to_file E p text w =
     (case write_result E (tick w) p text of
        OpenFails e \<Rightarrow> (Inl e, external E (OpenWrite p) w)
      | WriteFails k e \<Rightarrow>
          (Inl e, (external E (OpenWrite p) w)\<lparr>files := (files w)(p \<mapsto> take k text)\<rparr>)
      | WriteOk \<Rightarrow> (Inr (), (external E (OpenWrite p) w)\<lparr>files := (files w)(p \<mapsto> text)\<rparr>))"

definition json_filename :: "path \<Rightarrow> string \<Rightarrow> string \<Rightarrow> path" where
  "json_filename folder prefix ts =
     path_join folder (prefix @ ''_'' @ replace CHR '':'' CHR ''-'' ts @ ''.json'')"

definition write_json :: "env \<Rightarrow> json \<Rightarrow> string \<Rightarrow> string \<Rightarrow> unit io" where
  "write_json E data subdir prefix =
     io_bind (makedirs E (path_join (base_dir E) subdir)) (\<lambda>_.
     io_bind (timestamp E) (\<lambda>ts.
       io_try
         (io_bind (dump_to_file E (json_filename (path_join (base_dir E) subdir) prefix ts)
                     (json_dumps data)) (\<lambda>_.
          logging INFO (''Saved to '' @ json_filename (path_join (base_dir E) subdir) prefix ts)))
         (\<lambda>e. logging ERROR (''JSON write error: '' @ exn_str e))))"

section \<open>The scan driver\<close>

text \<open>The dicts the module builds have fixed keys; each is a record, with its JSON form.\<close>

record wifi_record =
  SSID :: string
  BSSID :: string
  Signal :: int
  Frequency :: int
  Timestamp :: string

record bt_record =
  Address :: string
  Name :: string
  Type :: string
  bt_Timestamp :: string

record ble_record =
  ble_Address :: string
  ble_Name :: string
  RSSI :: int
  ble_Type :: string
  ble_Timestamp :: string

record bt_comm =
  to :: string
  sent :: string
  received :: string
  time :: string

record wifi_comm =
  target :: string
  status :: string
  stdout :: string
  stderr :: string
  wifi_time :: string

definition wifi_json :: "wifi_record \<Rightarrow> json" where
  "wifi_json r = JDict [(''SSID'', JStr (SSID r)), (''BSSID'', JStr (BSSID r)),
     (''Signal'', JInt (Signal r)), (''Frequency'', JInt (Frequency r)),
     (''Timestamp'', JStr (Timestamp r))]"

definition bt_json :: "bt_record \<Rightarrow> json" where
  "bt_json r = JDict [(''Address'', JStr (Address r)), (''Name'', JStr (Name r)),
     (''Type'', JStr (Type r)), (''Timestamp'', JStr (bt_Timestamp r))]"

definition ble_json :: "ble_record \<Rightarrow> json" where
  "ble_json r = JDict [(''Address'', JStr (ble_Address r)), (''Name'', JStr (ble_Name r)),
     (''RSSI'', JInt (RSSI r)), (''Type'', JStr (ble_Type r)),
     (''Timestamp'', JStr (ble_Timestamp r))]"

definition bt_comm_json :: "bt_comm \<Rightarrow> json" where
  "bt_comm_json r = JDict [(''to'', JStr (to r)), (''sent'', JStr (sent r)),
     (''received'', JStr (received r)), (''time'', JStr (time r))]"

definition wifi_comm_json :: "wifi_comm \<Rightarrow> json" where
  "wifi_comm_json r = JDict [(''target'', JStr (target r)), (''status'', JStr (status r)),
     (''stdout'', JStr (stdout r)), (''stderr'', JStr (stderr r)),
     (''time'', JStr (wifi_time r))]"

text \<open>\<^verbatim>\<open>xs[i]\<close>: a negative index counts from the end, anything else out of range raises.\<close>

definition getitem :: "'a list \<Rightarrow> int \<Rightarrow> 'a io" where
  "getitem xs i =
     (if 0 \<le> i \<and> i < int (length xs) then io_return (xs ! nat i)
      else if - int (length xs) \<le> i \<and> i < 0 then io_return (xs ! nat (int (length xs) + i))
      else io_raise (Exception ''IndexError'' ''list index out of range''))"

text \<open>The loop of \<^verbatim>\<open>scan_wifi\<close> that appends one dict per network to \<^verbatim>\<open>data\<close>.\<close>

fun scan_wifi_loop :: "env \<Rightarrow> net list \<Rightarrow> wifi_record list \<Rightarrow> wifi_record list io" where
  "scan_wifi_loop E [] data = io_return data"
| "scan_wifi_loop E (n # results) data =
     io_bind (timestamp E) (\<lambda>ts.
       scan_wifi_loop E results
         (data @ [\<lparr>SSID = ssid n, BSSID = bssid n, Signal = signal n, Frequency = freq n,
                   Timestamp = ts\<rparr>]))"

definition scan_wifi :: "env \<Rightarrow> wifi_record list io" where
  "scan_wifi E =
     io_bind (call E PyWiFi (\<lambda>t. of_result (pywifi_result E t))) (\<lambda>_.
     io_bind (call E Interfaces (interfaces_result E)) (\<lambda>ifaces.
     io_bind (getitem ifaces 0) (\<lambda>iface.
     io_bind (call E (IfaceScan iface) (\<lambda>t. of_result (iface_scan_result E t iface))) (\<lambda>_.
     io_bind (sleep 5) (\<lambda>_.
     io_bind (call E (IfaceScanResults iface) (\<lambda>t. iface_scan_results_result E t iface))
       (\<lambda>results.
     io_bind (scan_wifi_loop E results []) (\<lambda>data.
     io_bind (write_json E (JList (map wifi_json data)) ''wifi_scans'' ''wifi'') (\<lambda>_.
     io_return data))))))))"

text \<open>The list comprehensions of the two Bluetooth scans, one timestamp per element.\<close>

fun classic_records :: "env \<Rightarrow> (string \<times> string) list \<Rightarrow> bt_record list io" where
  "classic_records E [] = io_return []"
| "classic_records E ((addr, nm) # devices) =
     io_bind (timestamp E) (\<lambda>ts.
     io_bind (classic_records E devices) (\<lambda>rest.
     io_return (\<lparr>Address = addr, Name = nm, Type = ''Classic'', bt_Timestamp = ts\<rparr> # rest)))"

definition scan_bluetooth_classic :: "env \<Rightarrow> bt_record list io" where
  "scan_bluetooth_classic E =
     io_try
       (io_bind (call E DiscoverDevices (discover_devices_result E)) (\<lambda>devices.
        io_bind (classic_records E devices) (\<lambda>data.
        io_bind (write_json E (JList (map bt_json data)) ''bt_scans'' ''classic'') (\<lambda>_.
        io_return data))))
       (\<lambda>e. io_bind (logging ERROR (''Bluetooth Classic scan error: '' @ exn_str e)) (\<lambda>_.
             io_return []))"

text \<open>\<^verbatim>\<open>d.name or "Unknown"\<close>: \<^verbatim>\<open>None\<close> and the empty string are both falsy.\<close>

definition name_or_unknown :: "string option \<Rightarrow> string" where
  "name_or_unknown n = (case n of None \<Rightarrow> ''Unknown'' | Some s \<Rightarrow> if s = [] then ''Unknown'' else s)"

fun ble_records :: "env \<Rightarrow> ble_device list \<Rightarrow> ble_record list io" where
  "ble_records E [] = io_return []"
| "ble_records E (d # devices) =
     io_bind (timestamp E) (\<lambda>ts.
     io_bind (ble_records E devices) (\<lambda>rest.
     io_return (\<lparr>ble_Address = address d, ble_Name = name_or_unknown (name d), RSSI = rssi d,
                  ble_Type = ''BLE'', ble_Timestamp = ts\<rparr> # rest)))"

definition scan_bluetooth_ble :: "env \<Rightarrow> ble_record list io" where
  "scan_bluetooth_ble E =
     io_try
       (io_bind (call E BleakDiscover (bleak_discover_result E)) (\<lambda>devices.
        io_bind (ble_records E devices) (\<lambda>data.
        io_bind (write_json E (JList (map ble_json data)) ''bt_scans'' ''ble'') (\<lambda>_.
        io_return data))))
       (\<lambda>e. io_bind (logging ERROR (''BLE scan error: '' @ exn_str e)) (\<lambda>_.
             io_return []))"

section \<open>The communication helper\<close>

definition msg :: string where
  "msg = ''Hello Bluetooth Device!'' @ [CHR 0x0A]"

text \<open>The body of the \<^verbatim>\<open>try\<close> block of \<^verbatim>\<open>communicate_bluetooth\<close>, then the function.\<close>

definition communicate_bluetooth_body :: "env \<Rightarrow> string \<Rightarrow> bt_comm option io" where
  "communicate_bluetooth_body E addr =
     io_bind (print E (''[+] Connecting to '' @ addr @ '' via RFCOMM...'')) (\<lambda>_.
     io_bind (call E BluetoothSocket (\<lambda>t. of_result (socket_result E t))) (\<lambda>_.
     io_bind (call E (SockConnect addr 1) (\<lambda>t. of_result (connect_result E t addr 1))) (\<lambda>_.
     io_bind (call E (SockSend msg) (\<lambda>t. of_result (send_result E t msg))) (\<lambda>_.
     io_bind (print E (''[>] Sent: '' @ strip msg)) (\<lambda>_.
     io_bind (call E (SockRecv 1024) (\<lambda>t. recv_result E t 1024)) (\<lambda>raw.
     io_bind (print E (''[<] Received: '' @ decode_utf8_ignore E raw)) (\<lambda>_.
     io_bind (call E SockClose (\<lambda>t. of_result (close_result E t))) (\<lambda>_.
     io_bind (timestamp E) (\<lambda>ts.
     io_return (Some \<lparr>to = addr, sent = strip msg,
                       received = strip (decode_utf8_ignore E raw), time = ts\<rparr>))))))))))"

definition communicate_bluetooth :: "env \<Rightarrow> string \<Rightarrow> bt_comm option io" where
  "communicate_bluetooth E addr =
     io_try (communicate_bluetooth_body E addr)
       (\<lambda>e. io_bind (logging ERROR (''Bluetooth comm error: '' @ exn_str e)) (\<lambda>_.
             io_return None))"

definition ping_command :: "string \<Rightarrow> string list" where
  "ping_command bssid_or_ip = [''ping'', ''-c'', ''2'', bssid_or_ip]"

definition communicate_wifi_body :: "env \<Rightarrow> string \<Rightarrow> wifi_comm option io" where
  "communicate_wifi_body E bssid_or_ip =
     io_bind (print E (''[+] Pinging '' @ bssid_or_ip @ ''...'')) (\<lambda>_.
     io_bind (call E (SubprocessRun (ping_command bssid_or_ip))
                (\<lambda>t. subprocess_run_result E t (ping_command bssid_or_ip))) (\<lambda>result.
     io_bind (timestamp E) (\<lambda>ts.
     io_return (Some \<lparr>target = bssid_or_ip,
                       status = (if returncode result = 0 then ''reachable''
                                 else ''unreachable''),
                       stdout = proc_stdout result, stderr = proc_stderr result,
                       wifi_time = ts\<rparr>))))"

definition communicate_wifi :: "env \<Rightarrow> string \<Rightarrow> wifi_comm option io" where
  "communicate_wifi E bssid_or_ip =
     io_try (communicate_wifi_body E bssid_or_ip)
       (\<lambda>e. io_bind (logging ERROR (''Wi-Fi ping error: '' @ exn_str e)) (\<lambda>_.
             io_return None))"

text \<open>
  The two loops of \<^verbatim>\<open>auto_communicate\<close>. \<^verbatim>\<open>if result:\<close> drops \<^verbatim>\<open>None\<close> (a result dict is
  never empty, so it is always truthy); \<^verbatim>\<open>if ap["BSSID"]:\<close> drops the empty string.
\<close>

fun auto_communicate_bt :: "env \<Rightarrow> bt_record list \<Rightarrow> bt_comm list \<Rightarrow> bt_comm list io" where
  "auto_communicate_bt E [] bt_results = io_return bt_results"
| "auto_communicate_bt E (device # bt_classic) bt_results =
     io_bind (communicate_bluetooth E (Address device)) (\<lambda>result.
       auto_communicate_bt E bt_classic
         (case result of None \<Rightarrow> bt_results | Some r \<Rightarrow> bt_results @ [r]))"

fun auto_communicate_wifi :: "env \<Rightarrow> wifi_record list \<Rightarrow> wifi_comm list \<Rightarrow> wifi_comm list io"
where
  "auto_communicate_wifi E [] wifi_results = io_return wifi_results"
| "auto_communicate_wifi E (ap # wifi_list) wifi_results =
     (if BSSID ap \<noteq> [] then
        io_bind (communicate_wifi E (BSSID ap)) (\<lambda>result.
          auto_communicate_wifi E wifi_list
            (case result of None \<Rightarrow> wifi_results | Some r \<Rightarrow> wifi_results @ [r]))
      else auto_communicate_wifi E wifi_list wifi_results)"

definition auto_communicate :: "env \<Rightarrow> bt_record list \<Rightarrow> wifi_record list \<Rightarrow> unit io" where
  "auto_communicate E bt_classic wifi_list =
     io_bind (auto_communicate_bt E bt_classic []) (\<lambda>bt_results.
     io_bind (write_json E (JList (map bt_comm_json bt_results)) ''comm_logs'' ''bt_comm'') (\<lambda>_.
     io_bind (auto_communicate_wifi E wifi_list []) (\<lambda>wifi_results.
     write_json E (JList (map wifi_comm_json wifi_results)) ''comm_logs'' ''wifi_comm'')))"

section \<open>The manual selection prompt\<close>

text \<open>
  \<^verbatim>\<open>int(s)\<close> on a string of code points below 256: surrounding whitespace is dropped, one
  sign is allowed, then decimal digits, where single underscores may separate digits. The
  whitespace \<^verbatim>\<open>int\<close> drops is that of \<^verbatim>\<open>str.strip\<close> without the four separators
  \<^verbatim>\<open>\x1c\<close> to \<^verbatim>\<open>\x1f\<close>.
\<close>

definition int_space :: "char \<Rightarrow> bool" where
  "int_space c = (let n = of_char c :: nat in
     (9 \<le> n \<and> n \<le> 13) \<or> n = 32 \<or> n = 133 \<or> n = 160)"

definition isdigit :: "char \<Rightarrow> bool" where
  "isdigit c = (48 \<le> (of_char c :: nat) \<and> (of_char c :: nat) \<le> 57)"

definition digit_value :: "char \<Rightarrow> nat" where
  "digit_value c = of_char c - 48"

fun int_digits :: "string \<Rightarrow> nat \<Rightarrow> nat option" where
  "int_digits [] acc = Some acc"
| "int_digits (c # cs) acc =
     (if isdigit c then int_digits cs (10 * acc + digit_value c)
      else if c = CHR ''_'' then
        (case cs of
           [] \<Rightarrow> None
         | d # ds \<Rightarrow> if isdigit d then int_digits ds (10 * acc + digit_value d) else None)
      else None)"

definition int_body :: "string \<Rightarrow> nat option" where
  "int_body s = (case s of [] \<Rightarrow> None
     | c # cs \<Rightarrow> if isdigit c then int_digits cs (digit_value c) else None)"

definition parse_int :: "string \<Rightarrow> int option" where
  "parse_int s =
     (case rev (dropWhile int_space (rev (dropWhile int_space s))) of
        [] \<Rightarrow> None
      | c # cs \<Rightarrow> if c = CHR ''-'' then map_option (\<lambda>n. - int n) (int_body cs)
                  else if c = CHR ''+'' then map_option int (int_body cs)
                  else map_option int (int_body (c # cs)))"

definition py_int :: "env \<Rightarrow> string \<Rightarrow> int io" where
  "py_int E s =
     (case parse_int s of
        Some i \<Rightarrow> io_return i
      | None \<Rightarrow> io_raise (Exception ''ValueError''
                 (''invalid literal for int() with base 10: '' @ repr_str E s)))"

text \<open>The two \<^verbatim>\<open>enumerate\<close> loops that list the targets, numbered from 1.\<close>

fun list_bt :: "env \<Rightarrow> nat \<Rightarrow> bt_record list \<Rightarrow> unit io" where
  "list_bt E i [] = io_return ()"
| "list_bt E i (dev # bt_classic) =
     io_bind (print E (int_str (int i + 1) @ ''. '' @ Name dev @ '' - '' @ Address dev)) (\<lambda>_.
       list_bt E (Suc i) bt_classic)"

fun list_wifi :: "env \<Rightarrow> nat \<Rightarrow> wifi_record list \<Rightarrow> unit io" where
  "list_wifi E i [] = io_return ()"
| "list_wifi E i (n # wifi_list) =
     io_bind (print E (int_str (int i + 1) @ ''. '' @ SSID n @ '' - '' @ BSSID n)) (\<lambda>_.
       list_wifi E (Suc i) wifi_list)"

definition interactive_terminal :: "env \<Rightarrow> bt_record list \<Rightarrow> wifi_record list \<Rightarrow> unit io" where
  "interactive_terminal E bt_classic wifi_list =
     io_bind (print E (CHR 0x0A # ''[MANUAL CONTROL]'')) (\<lambda>_.
     io_bind (print E ''1. Talk to Bluetooth Device'') (\<lambda>_.
     io_bind (print E ''2. Ping Wi-Fi BSSID/IP'') (\<lambda>_.
     io_bind (print E ''3. Exit'') (\<lambda>_.
     io_bind (input E ''>> Choose: '') (\<lambda>choice.
       if choice = ''1'' then
         io_bind (list_bt E 0 bt_classic) (\<lambda>_.
         io_bind (input E ''Select device #: '') (\<lambda>s.
         io_bind (py_int E s) (\<lambda>i.
         io_bind (getitem bt_classic (i - 1)) (\<lambda>dev.
         io_bind (communicate_bluetooth E (Address dev)) (\<lambda>_. io_return ())))))
       else if choice = ''2'' then
         io_bind (list_wifi E 0 wifi_list) (\<lambda>_.
         io_bind (input E ''Select Wi-Fi #: '') (\<lambda>s.
         io_bind (py_int E s) (\<lambda>i.
         io_bind (getitem wifi_list (i - 1)) (\<lambda>n.
         io_bind (communicate_wifi E (BSSID n)) (\<lambda>_. io_return ())))))
       else print E ''Exiting manual mode.'')))))"

section \<open>The cycle and the scheduler\<close>

definition scan_and_communicate :: "env \<Rightarrow> bool \<Rightarrow> unit io" where
  "scan_and_communicate E interactive =
     io_bind (logging INFO ''Starting full scan & communication cycle'') (\<lambda>_.
     io_bind (scan_wifi E) (\<lambda>wifi_list.
     io_bind (scan_bluetooth_classic E) (\<lambda>bt_classic.
     io_bind (scan_bluetooth_ble E) (\<lambda>_.
     io_bind (auto_communicate E bt_classic wifi_list) (\<lambda>_.
     if interactive then interactive_terminal E bt_classic wifi_list else io_return ())))))"

text \<open>
  The third-party \<^verbatim>\<open>schedule\<close> package, as far as the module uses it: one job.
  \<^verbatim>\<open>schedule.every(1).hours.do(job)\<close> does not run the job; it sets the job's next run to
  one hour after the registration. \<^verbatim>\<open>schedule.run_pending()\<close> runs the job when the clock
  has reached its next run, and then sets the next run to one hour after the job's return.
  An exception of the job leaves \<^verbatim>\<open>run_pending\<close>. The job's state is its next run, in
  seconds.
\<close>

definition every_1_hours_do :: "nat io" where
  "every_1_hours_do w = (Inr (wall w + 3600), w)"

definition run_pending :: "env \<Rightarrow> nat \<Rightarrow> nat io" where
  "run_pending E next_run w =
     (if next_run \<le> wall w then
        io_bind (scan_and_communicate E False) (\<lambda>_ w'. (Inr (wall w' + 3600), w')) w
      else (Inr next_run, w))"

text \<open>
  \<^verbatim>\<open>while True: schedule.run_pending(); time.sleep(1)\<close>. The loop has no exit of its own:
  \<open>hourly_loop E n\<close> is its first \<open>n\<close> rounds, and its value is the exception that ended
  the loop within them, or the job's next run when the loop is still going.
\<close>

fun hourly_loop :: "env \<Rightarrow> nat \<Rightarrow> nat \<Rightarrow> nat io" where
  "hourly_loop E 0 next_run = io_return next_run"
| "hourly_loop E (Suc n) next_run =
     io_bind (run_pending E next_run) (\<lambda>next_run'.
     io_bind (sleep 1) (\<lambda>_.
     hourly_loop E n next_run'))"

definition hourly_scheduler :: "env \<Rightarrow> nat \<Rightarrow> nat io" where
  "hourly_scheduler E n =
     io_bind every_1_hours_do (\<lambda>next_run.
     io_bind (logging INFO ''Hourly auto-scan running. Ctrl+C to stop.'') (\<lambda>_.
     hourly_loop E n next_run))"

section \<open>\<^verbatim>\<open>json.load\<close>\<close>

text \<open>
  The decoder of Python's \<^verbatim>\<open>json\<close> package with its defaults, as far as the values of this
  model go: whitespace is space, tab, newline and carriage return; a string is scanned up
  to its closing quote, with the escapes \<^verbatim>\<open>\" \\ \/ \b \f \n \r \t \uXXXX\<close> and no raw control
  character; a number is \<^verbatim>\<open>-?(0|[1-9][0-9]*)\<close>; an object becomes a dict, where a repeated
  key keeps its place and takes the last value. The result is \<open>None\<close> where the decoder
  raises \<^verbatim>\<open>JSONDecodeError\<close>, and also where the text leaves the values modelled here: a
  number with a fraction or an exponent (a float), \<^verbatim>\<open>NaN\<close>, \<^verbatim>\<open>Infinity\<close>, and a
  \<^verbatim>\<open>\uXXXX\<close> escape of a code point above 255.

  \<open>scan_once\<close>, \<open>JSONArray\<close> and \<open>JSONObject\<close> call one another; their first argument
  bounds the depth of these calls, and \<open>json_loads\<close> starts them with the length of the
  text. \<open>JSONArray\<close> is the decoder's loop over the items, entered at the first item;
  \<open>JSONObject\<close> is its loop over the members, entered after the opening quote of a key.
\<close>

definition is_ws :: "char \<Rightarrow> bool" where
  "is_ws c = (c = CHR '' '' \<or> c = CHR 0x09 \<or> c = CHR 0x0A \<or> c = CHR 0x0D)"

definition skip_ws :: "string \<Rightarrow> string" where
  "skip_ws s = dropWhile is_ws s"

definition hex_value :: "char \<Rightarrow> nat option" where
  "hex_value c = (let n = of_char c :: nat in
     if 48 \<le> n \<and> n \<le> 57 then Some (n - 48)
     else if 97 \<le> n \<and> n \<le> 102 then Some (n - 87)
     else if 65 \<le> n \<and> n \<le> 70 then Some (n - 55)
     else None)"

definition decode_uXXXX :: "char \<Rightarrow> char \<Rightarrow> char \<Rightarrow> char \<Rightarrow> nat option" where
  "decode_uXXXX a b c d =
     (case (hex_value a, hex_value b, hex_value c, hex_value d) of
        (Some h3, Some h2, Some h1, Some h0) \<Rightarrow> Some (4096 * h3 + 256 * h2 + 16 * h1 + h0)
      | _ \<Rightarrow> None)"

definition backslash :: "char \<Rightarrow> char option" where
  "backslash e =
     (if e = CHR 0x22 then Some (CHR 0x22)
      else if e = CHR 0x5C then Some (CHR 0x5C)
      else if e = CHR ''/'' then Some (CHR ''/'')
      else if e = CHR ''b'' then Some (CHR 0x08)
      else if e = CHR ''f'' then Some (CHR 0x0C)
      else if e = CHR ''n'' then Some (CHR 0x0A)
      else if e = CHR ''r'' then Some (CHR 0x0D)
      else if e = CHR ''t'' then Some (CHR 0x09)
      else None)"

definition prepend :: "char \<Rightarrow> (string \<times> string) option \<Rightarrow> (string \<times> string) option" where
  "prepend c r = (case r of None \<Rightarrow> None | Some (s, rest) \<Rightarrow> Some (c # s, rest))"

fun scanstring :: "string \<Rightarrow> (string \<times> string) option" where
  "scanstring [] = None"
| "scanstring (c # cs) =
     (if c = CHR 0x22 then Some ([], cs)
      else if c = CHR 0x5C then
        (case cs of
           [] \<Rightarrow> None
         | e # r \<Rightarrow>
             if e = CHR ''u'' then
               (case r of
                  h3 # h2 # h1 # h0 # r' \<Rightarrow>
                    (case decode_uXXXX h3 h2 h1 h0 of
                       None \<Rightarrow> None
                     | Some uni \<Rightarrow> if uni < 256 then prepend (char_of uni) (scanstring r')
                                   else None)
                | _ \<Rightarrow> None)
             else
               (case backslash e of
                  None \<Rightarrow> None
                | Some ch \<Rightarrow> prepend ch (scanstring r)))
      else if (of_char c :: nat) < 32 then None
      else prepend c (scanstring cs))"

definition digits_value :: "string \<Rightarrow> nat" where
  "digits_value ds = foldl (\<lambda>a c. 10 * a + digit_value c) 0 ds"

definition is_frac :: "string \<Rightarrow> bool" where
  "is_frac s = (case s of c # d # _ \<Rightarrow> c = CHR ''.'' \<and> isdigit d | _ \<Rightarrow> False)"

definition is_exp :: "string \<Rightarrow> bool" where
  "is_exp s = (case s of
       c # d # r \<Rightarrow> (c = CHR ''e'' \<or> c = CHR ''E'')
          \<and> (isdigit d \<or> ((d = CHR ''+'' \<or> d = CHR ''-'') \<and> (case r of x # _ \<Rightarrow> isdigit x | [] \<Rightarrow> False)))
     | _ \<Rightarrow> False)"

definition match_integer :: "string \<Rightarrow> (string \<times> string) option" where
  "match_integer s = (case s of
       [] \<Rightarrow> None
     | d # r \<Rightarrow> if \<not> isdigit d then None
               else if d = CHR ''0'' then Some ([d], r)
               else Some (d # takeWhile isdigit r, dropWhile isdigit r))"

definition match_number :: "string \<Rightarrow> (json \<times> string) option" where
  "match_number s =
     (case (case s of
              c # r \<Rightarrow> if c = CHR ''-'' then map_option (\<lambda>(ds, rest). (- int (digits_value ds), rest)) (match_integer r)
                        else map_option (\<lambda>(ds, rest). (int (digits_value ds), rest)) (match_integer s)
            | [] \<Rightarrow> None) of
        None \<Rightarrow> None
      | Some (i, rest) \<Rightarrow> if is_frac rest \<or> is_exp rest then None else Some (JInt i, rest))"

fun setitem :: "(string \<times> json) list \<Rightarrow> string \<Rightarrow> json \<Rightarrow> (string \<times> json) list" where
  "setitem [] k v = [(k, v)]"
| "setitem ((k', v') # d) k v = (if k' = k then (k', v) # d else (k', v') # setitem d k v)"

definition dict :: "(string \<times> json) list \<Rightarrow> (string \<times> json) list" where
  "dict pairs = foldl (\<lambda>d (k, v). setitem d k v) [] pairs"

fun scan_once :: "nat \<Rightarrow> string \<Rightarrow> (json \<times> string) option"
  and JSONArray :: "nat \<Rightarrow> string \<Rightarrow> (json list \<times> string) option"
  and JSONObject :: "nat \<Rightarrow> string \<Rightarrow> ((string \<times> json) list \<times> string) option"
where
  "scan_once 0 s = None"
| "scan_once (Suc n) [] = None"
| "scan_once (Suc n) (c # cs) =
     (if c = CHR 0x22 then map_option (\<lambda>(s, rest). (JStr s, rest)) (scanstring cs)
      else if c = CHR ''{'' then
        (case skip_ws cs of
           [] \<Rightarrow> None
         | d # r \<Rightarrow> if d = CHR ''}'' then Some (JDict [], r)
                   else if d = CHR 0x22 then
                     map_option (\<lambda>(pairs, rest). (JDict (dict pairs), rest)) (JSONObject n r)
                   else None)
      else if c = CHR ''['' then
        (case skip_ws cs of
           [] \<Rightarrow> None
         | d # r \<Rightarrow> if d = CHR '']'' then Some (JList [], r)
                   else map_option (\<lambda>(values, rest). (JList values, rest)) (JSONArray n (d # r)))
      else if c = CHR ''n'' \<and> take 3 cs = ''ull'' then Some (JNull, drop 3 cs)
      else if c = CHR ''t'' \<and> take 3 cs = ''rue'' then Some (JBool True, drop 3 cs)
      else if c = CHR ''f'' \<and> take 4 cs = ''alse'' then Some (JBool False, drop 4 cs)
      else match_number (c # cs))"
| "JSONArray 0 s = None"
| "JSONArray (Suc n) s =
     (case scan_once n s of
        None \<Rightarrow> None
      | Some (v, rest) \<Rightarrow>
          (case skip_ws rest of
             [] \<Rightarrow> None
           | d # r \<Rightarrow> if d = CHR '']'' then Some ([v], r)
                     else if d = CHR '','' then
                       map_option (\<lambda>(values, rest'). (v # values, rest')) (JSONArray n (skip_ws r))
                     else None))"
| "JSONObject 0 s = None"
| "JSONObject (Suc n) s =
     (case scanstring s of
        None \<Rightarrow> None
      | Some (key, rest) \<Rightarrow>
          (case skip_ws rest of
             [] \<Rightarrow> None
           | c # r \<Rightarrow>
               if c \<noteq> CHR '':'' then None
               else
                 (case scan_once n (skip_ws r) of
                    None \<Rightarrow> None
                  | Some (v, rest') \<Rightarrow>
                      (case skip_ws rest' of
                         [] \<Rightarrow> None
                       | d # r' \<Rightarrow>
                           if d = CHR ''}'' then Some ([(key, v)], r')
                           else if d = CHR '','' then
                             (case skip_ws r' of
                                [] \<Rightarrow> None
                              | q # r'' \<Rightarrow>
                                  if q = CHR 0x22 then
                                    map_option (\<lambda>(pairs, rest''). ((key, v) # pairs, rest''))
                                      (JSONObject n r'')
                                  else None)
                           else None))))"

definition json_loads :: "string \<Rightarrow> json option" where
  "json_loads s =
     (case scan_once (length s) (skip_ws s) of
        None \<Rightarrow> None
      | Some (obj, rest) \<Rightarrow> if skip_ws rest = [] then Some obj else None)"

text \<open>
  A value that Python can hold: the keys of every dict are distinct. The three functions
  follow the value, the items of a list and the members of a dict.
\<close>

fun distinct_keys :: "json \<Rightarrow> bool"
  and distinct_keys_items :: "json list \<Rightarrow> bool"
  and distinct_keys_members :: "(string \<times> json) list \<Rightarrow> bool"
where
  "distinct_keys (JList xs) = distinct_keys_items xs"
| "distinct_keys (JDict kvs) = (distinct (map fst kvs) \<and> distinct_keys_members kvs)"
| "distinct_keys v = True"
| "distinct_keys_items [] = True"
| "distinct_keys_items (x # xs) = (distinct_keys x \<and> distinct_keys_items xs)"
| "distinct_keys_members [] = True"
| "distinct_keys_members ((k, v) # kvs) = (distinct_keys v \<and> distinct_keys_members kvs)"

text \<open>A bound on the depth of the decoder's calls that suffices for an encoded value.\<close>

fun depth :: "json \<Rightarrow> nat"
  and depth_items :: "json list \<Rightarrow> nat"
  and depth_members :: "(string \<times> json) list \<Rightarrow> nat"
where
  "depth (JList xs) = Suc (depth_items xs)"
| "depth (JDict kvs) = Suc (depth_members kvs)"
| "depth v = Suc 0"
| "depth_items [] = 0"
| "depth_items (x # xs) = Suc (depth x + depth_items xs)"
| "depth_members [] = 0"
| "depth_members ((k, v) # kvs) = Suc (depth v + depth_members kvs)"

text \<open>What may follow an encoded value in an encoded text: nothing, a comma or a newline.\<close>

definition follows :: "string \<Rightarrow> bool" where
  "follows s = (case s of [] \<Rightarrow> True | c # _ \<Rightarrow> c = CHR '','' \<or> c = CHR 0x0A)"


section \<open>Sample environments\<close>

text \<open>
  A world in which every call succeeds and nothing is discovered, used to run the module on
  concrete inputs, and the state before the first call.
\<close>

definition quiet_env :: env where
  "quiet_env = \<lparr>base_dir = ''/home/u/.scanner_logs'', latency = (\<lambda>t. 0),
     utcnow_isoformat = (\<lambda>t. ''2024-05-06T07:08:09.123456''),
     makedirs_result = (\<lambda>t p. None), write_result = (\<lambda>t p s. WriteOk),
     input_result = (\<lambda>t. Inr ''0''), pywifi_result = (\<lambda>t. None),
     interfaces_result = (\<lambda>t. Inr [0]), iface_scan_result = (\<lambda>t i. None),
     iface_scan_results_result = (\<lambda>t i. Inr []), discover_devices_result = (\<lambda>t. Inr []),
     bleak_discover_result = (\<lambda>t. Inr []), socket_result = (\<lambda>t. None),
     connect_result = (\<lambda>t a c. None), send_result = (\<lambda>t s. None),
     recv_result = (\<lambda>t n. Inr ''ok''), close_result = (\<lambda>t. None),
     decode_utf8_ignore = (\<lambda>s. s), repr_str = (\<lambda>s. [CHR 0x27] @ s @ [CHR 0x27]),
     subprocess_run_result =
       (\<lambda>t argv. Inr \<lparr>returncode = 0, proc_stdout = [], proc_stderr = []\<rparr>)\<rparr>"

definition world0 :: world where
  "world0 = \<lparr>tick = 0, wall = 0, files = Map.empty, log = [], events = []\<rparr>"

text \<open>A host without any Wi-Fi interface: \<^verbatim>\<open>wifi.interfaces()\<close> is the empty list.\<close>

definition no_interface_env :: env where
  "no_interface_env = quiet_env\<lparr>interfaces_result := (\<lambda>t. Inr [])\<rparr>"


text \<open>A target that does not answer: \<^verbatim>\<open>ping\<close> exits with status 1.\<close>

definition unreachable_env :: env where
  "unreachable_env = quiet_env\<lparr>subprocess_run_result :=
     (\<lambda>t argv. Inr \<lparr>returncode = 1, proc_stdout = ''2 packets transmitted, 0 received'',
                      proc_stderr = []\<rparr>)\<rparr>"

section \<open>Reading the record of calls\<close>

text \<open>The processes started, and the lines printed, in order.\<close>

fun subprocess_runs :: "event list \<Rightarrow> string list list" where
  "subprocess_runs [] = []"
| "subprocess_runs (SubprocessRun argv # evs) = argv # subprocess_runs evs"
| "subprocess_runs (ev # evs) = subprocess_runs evs"

fun printed :: "event list \<Rightarrow> string list" where
  "printed [] = []"
| "printed (Print s # evs) = s # printed evs"
| "printed (ev # evs) = printed evs"

text \<open>
  Each communication attempt starts by printing a line that begins with \<^verbatim>\<open>[+] \<close>; no other
  line the module prints begins so.
\<close>

definition attempt_lines :: "event list \<Rightarrow> string list" where
  "attempt_lines evs = filter (\<lambda>s. take 4 s = ''[+] '') (printed evs)"



text \<open>A computation that leaves every file as it was, whatever it returns or raises.\<close>

definition keeps_files :: "'a io \<Rightarrow> bool" where
  "keeps_files m = (\<forall>w. files (snd (m w)) = files w)"

text \<open>\<open>n\<close> rounds of the scheduler's loop in which nothing is pending: \<open>n\<close> sleeps of 1 s.\<close>

definition idle :: "nat \<Rightarrow> world \<Rightarrow> world" where
  "idle n w = w\<lparr>tick := tick w + n, wall := wall w + n,
                events := events w @ replicate n (Sleep 1)\<rparr>"




definition ap1 :: wifi_record where
  "ap1 = \<lparr>SSID = ''home'', BSSID = ''aa:bb:cc:dd:ee:ff'', Signal = -40, Frequency = 2412,
           Timestamp = ''2024-05-06T07:08:03''\<rparr>"





text \<open>The state right after \<^verbatim>\<open>hourly_scheduler\<close> has announced itself in the log.\<close>

definition started :: "world \<Rightarrow> world" where
  "started w = w\<lparr>log := log w @ [(INFO, ''Hourly auto-scan running. Ctrl+C to stop.'')]\<rparr>"

section \<open>Properties\<close>

lemmas io_defs = io_bind_def io_return_def io_raise_def io_try_def call_def external_def
  logging_def print_def input_def sleep_def of_result_def timestamp_def makedirs_def

subsection \<open>The persistence helper\<close>

lemma write_json_raises_iff_makedirs:
  "fst (write_json E data subdir prefix w) = Inl e \<longleftrightarrow>
     makedirs_result E (tick w) (path_join (base_dir E) subdir) = Some e"
  by (auto simp: write_json_def io_defs dump_to_file_def
           split: option.splits write_outcome.splits)



subsection \<open>The scan driver\<close>

text \<open>
  The two Bluetooth scans wrap their whole body in \<^verbatim>\<open>try ... except Exception\<close>: they
  always return, and an error of the discovery call gives the empty list and one log entry.
\<close>

lemma scan_bluetooth_classic_returns:
  "\<exists>data w'. scan_bluetooth_classic E w = (Inr data, w')"
  by (auto simp: scan_bluetooth_classic_def io_try_def io_bind_def io_return_def logging_def
           split: prod.splits sum.splits)

lemma scan_bluetooth_ble_returns:
  "\<exists>data w'. scan_bluetooth_ble E w = (Inr data, w')"
  by (auto simp: scan_bluetooth_ble_def io_try_def io_bind_def io_return_def logging_def
           split: prod.splits sum.splits)

lemma scan_bluetooth_classic_error:
  "discover_devices_result E (tick w) = Inl e \<Longrightarrow>
   scan_bluetooth_classic E w =
     (Inr [], (external E DiscoverDevices w)\<lparr>log := log w @
        [(ERROR, ''Bluetooth Classic scan error: '' @ exn_str e)]\<rparr>)"
  by (simp add: scan_bluetooth_classic_def io_defs)

lemma scan_bluetooth_ble_error:
  "bleak_discover_result E (tick w) = Inl e \<Longrightarrow>
   scan_bluetooth_ble E w =
     (Inr [], (external E BleakDiscover w)\<lparr>log := log w @
        [(ERROR, ''BLE scan error: '' @ exn_str e)]\<rparr>)"
  by (simp add: scan_bluetooth_ble_def io_defs)

text \<open>
  C1. \<^verbatim>\<open>scan_wifi\<close> has no \<^verbatim>\<open>try\<close> block. On a host without a Wi-Fi interface
  \<^verbatim>\<open>wifi.interfaces()[0]\<close> raises \<^verbatim>\<open>IndexError\<close>; the exception leaves \<^verbatim>\<open>scan_wifi\<close>, then
  leaves \<^verbatim>\<open>scan_and_communicate\<close>, and the cycle ends after the two Wi-Fi calls: neither
  Bluetooth scan is started.
\<close>

theorem scan_wifi_error_escapes:
  "fst (scan_wifi no_interface_env world0)
     = Inl (Exception ''IndexError'' ''list index out of range'')
   \<and> fst (scan_and_communicate no_interface_env False world0)
       = Inl (Exception ''IndexError'' ''list index out of range'')
   \<and> events (snd (scan_and_communicate no_interface_env False world0)) = [PyWiFi, Interfaces]"
  by (simp add: scan_and_communicate_def scan_wifi_def getitem_def io_defs
        no_interface_env_def quiet_env_def world0_def)

subsection \<open>The communication helper\<close>

text \<open>
  C5. A Wi-Fi communication attempt prints one line, starts exactly one external process,
  \<^verbatim>\<open>ping -c 2 target\<close> (two echo requests), and reads the clock. When the process
  finishes with some exit status, the attempt returns a record for that target whose status
  is \<^verbatim>\<open>unreachable\<close> exactly when the exit status is not zero and \<^verbatim>\<open>reachable\<close> exactly
  when it is zero.
\<close>

theorem communicate_wifi_status:
  assumes "subprocess_run_result E (tick w + 1) (ping_command t) = Inr result"
  shows "\<exists>r w'. communicate_wifi E t w = (Inr (Some r), w')
           \<and> events w' = events w @ [Print (''[+] Pinging '' @ t @ ''...''),
                                       SubprocessRun [''ping'', ''-c'', ''2'', t], Utcnow]
           \<and> target r = t
           \<and> (status r = ''unreachable'' \<longleftrightarrow> returncode result \<noteq> 0)
           \<and> (status r = ''reachable'' \<longleftrightarrow> returncode result = 0)"
  using assms
  by (simp add: communicate_wifi_def communicate_wifi_body_def io_defs ping_command_def)

theorem communicate_wifi_status_witness:
  "subprocess_run_result unreachable_env (tick world0 + 1) (ping_command ''10.0.0.9'')
     = Inr \<lparr>returncode = 1, proc_stdout = ''2 packets transmitted, 0 received'',
            proc_stderr = []\<rparr>
   \<and> (\<exists>r w'. communicate_wifi unreachable_env ''10.0.0.9'' world0 = (Inr (Some r), w')
          \<and> events w' = events world0 @ [Print (''[+] Pinging '' @ ''10.0.0.9'' @ ''...''),
                SubprocessRun [''ping'', ''-c'', ''2'', ''10.0.0.9''], Utcnow]
          \<and> target r = ''10.0.0.9''
          \<and> status r = ''unreachable'')"
  using communicate_wifi_status [of unreachable_env world0 "''10.0.0.9''"
     "\<lparr>returncode = 1, proc_stdout = ''2 packets transmitted, 0 received'', proc_stderr = []\<rparr>"]
  by (auto simp: unreachable_env_def quiet_env_def world0_def)

lemma subprocess_runs_append [simp]:
  "subprocess_runs (xs @ ys) = subprocess_runs xs @ subprocess_runs ys"
  by (induction xs rule: subprocess_runs.induct) auto

lemma printed_append [simp]: "printed (xs @ ys) = printed xs @ printed ys"
  by (induction xs rule: printed.induct) auto

lemma attempt_lines_append [simp]:
  "attempt_lines (xs @ ys) = attempt_lines xs @ attempt_lines ys"
  by (simp add: attempt_lines_def)







subsection \<open>The automatic communication phase\<close>


subsection \<open>Helper facts on numbers, listings and files\<close>










lemma keeps_files_return [simp]: "keeps_files (io_return x)"
  by (simp add: keeps_files_def io_return_def)

lemma keeps_files_raise [simp]: "keeps_files (io_raise e)"
  by (simp add: keeps_files_def io_raise_def)

lemma keeps_files_call [simp]: "keeps_files (call E ev answer)"
  by (simp add: keeps_files_def call_def external_def)

lemma keeps_files_logging [simp]: "keeps_files (logging lvl s)"
  by (simp add: keeps_files_def logging_def)

lemma keeps_files_bind:
  "keeps_files m \<Longrightarrow> (\<And>x. keeps_files (f x)) \<Longrightarrow> keeps_files (io_bind m f)"
  by (auto simp: keeps_files_def io_bind_def split: prod.splits sum.splits) (metis snd_conv)+

lemma keeps_files_try:
  "keeps_files m \<Longrightarrow> (\<And>e. keeps_files (h e)) \<Longrightarrow> keeps_files (io_try m h)"
  by (auto simp: keeps_files_def io_try_def split: prod.splits sum.splits) (metis snd_conv)+

lemma keeps_files_print [simp]: "keeps_files (print E s)"
  by (simp add: print_def)

lemma keeps_files_input [simp]: "keeps_files (input E s)"
  by (simp add: input_def)

lemma keeps_files_timestamp [simp]: "keeps_files (timestamp E)"
  by (simp add: timestamp_def)

lemma keeps_files_getitem [simp]: "keeps_files (getitem xs i)"
  by (simp add: getitem_def)

lemma keeps_files_py_int [simp]: "keeps_files (py_int E s)"
  by (simp add: py_int_def split: option.splits)

lemma keeps_files_communicate_bluetooth [simp]: "keeps_files (communicate_bluetooth E addr)"
  unfolding communicate_bluetooth_def communicate_bluetooth_body_def
  by (intro keeps_files_try keeps_files_bind) simp_all

lemma keeps_files_communicate_wifi [simp]: "keeps_files (communicate_wifi E t)"
  unfolding communicate_wifi_def communicate_wifi_body_def
  by (intro keeps_files_try keeps_files_bind) simp_all

lemma keeps_files_list_bt [simp]: "keeps_files (list_bt E i bt_classic)"
  by (induction bt_classic arbitrary: i) (auto intro!: keeps_files_bind)

lemma keeps_files_list_wifi [simp]: "keeps_files (list_wifi E i wifi_list)"
  by (induction wifi_list arbitrary: i) (auto intro!: keeps_files_bind)

lemma keeps_files_interactive_terminal: "keeps_files (interactive_terminal E bt_classic wifi_list)"
  unfolding interactive_terminal_def
  by (intro keeps_files_bind) (auto intro!: keeps_files_bind)


lemma write_json_ok:
  assumes "makedirs_result E (tick w) (path_join (base_dir E) subdir) = None"
    and "write_result E (tick w + 2)
           (json_filename (path_join (base_dir E) subdir) prefix (utcnow_isoformat E (tick w + 1)))
           (json_dumps data) = WriteOk"
  shows "write_json E data subdir prefix w =
     (Inr (), w\<lparr>tick := tick w + 3,
        wall := wall w + latency E (tick w) + latency E (tick w + 1) + latency E (tick w + 2),
        events := events w @ [Makedirs (path_join (base_dir E) subdir), Utcnow,
           OpenWrite (json_filename (path_join (base_dir E) subdir) prefix (utcnow_isoformat E (tick w + 1)))],
        files := (files w)(json_filename (path_join (base_dir E) subdir) prefix (utcnow_isoformat E (tick w + 1)) \<mapsto> json_dumps data),
        log := log w @ [(INFO, ''Saved to '' @ json_filename (path_join (base_dir E) subdir) prefix (utcnow_isoformat E (tick w + 1)))]\<rparr>)"
  using assms by (simp add: write_json_def io_defs dump_to_file_def)





subsection \<open>The manual selection prompt\<close>



lemma getitem_out_of_range:
  "int (length xs) \<le> i - 1 \<or> i - 1 < - int (length xs) \<Longrightarrow>
   getitem xs (i - 1) = io_raise (Exception ''IndexError'' ''list index out of range'')"
  by (auto simp: getitem_def)

text \<open>
  C9. The prompt never writes a file: whatever is typed, and so in particular for a number
  that is out of range for the list shown (for which \<^verbatim>\<open>bt_classic[sel]\<close> raises
  \<^verbatim>\<open>IndexError\<close>, see \<open>getitem_out_of_range\<close>), every file is afterwards what it was
  before.
\<close>

theorem interactive_terminal_keeps_files:
  "files (snd (interactive_terminal E bt_classic wifi_list w)) = files w"
  using keeps_files_interactive_terminal [of E bt_classic wifi_list]
  by (simp add: keeps_files_def)



subsection \<open>The scheduler\<close>

lemma idle_0 [simp]: "idle 0 w = w"
  by (simp add: idle_def)

lemma idle_Suc: "idle (Suc n) w = idle n (snd (sleep 1 w))"
  by (simp add: idle_def sleep_def)

lemma wall_idle [simp]: "wall (idle n w) = wall w + n"
  by (simp add: idle_def)

lemma hourly_loop_idle:
  "wall w + n \<le> next_run \<Longrightarrow> hourly_loop E n next_run w = (Inr next_run, idle n w)"
proof (induction n arbitrary: w)
  case 0
  then show ?case by (simp add: io_return_def)
next
  case (Suc n)
  have "wall (snd (sleep 1 w)) + n \<le> next_run"
    using Suc.prems by (simp add: sleep_def)
  from Suc.IH [OF this] show ?case
    using Suc.prems by (simp add: run_pending_def io_bind_def idle_Suc sleep_def)
qed

lemma hourly_loop_due:
  "next_run \<le> wall w \<Longrightarrow>
   hourly_loop E (Suc m) next_run w =
     io_bind (scan_and_communicate E False)
       (\<lambda>_ w'. io_bind (sleep 1) (\<lambda>_. hourly_loop E m (wall w' + 3600)) w') w"
  by (simp add: run_pending_def io_bind_def split: prod.splits sum.splits)

lemma hourly_loop_add:
  "hourly_loop E (a + b) next_run w =
     io_bind (hourly_loop E a next_run) (\<lambda>next_run'. hourly_loop E b next_run') w"
proof (induction a arbitrary: next_run w)
  case 0
  then show ?case by (simp add: io_bind_def io_return_def)
next
  case (Suc a)
  show ?case
    by (simp add: Suc.IH io_bind_def split: prod.splits sum.splits)
qed

lemma hourly_loop_next_cycle:
  assumes "wall v \<le> next_run"
  shows "hourly_loop E (next_run - wall v + Suc m) next_run v =
     io_bind (scan_and_communicate E False)
       (\<lambda>_ w'. io_bind (sleep 1) (\<lambda>_. hourly_loop E m (wall w' + 3600)) w')
       (idle (next_run - wall v) v)"
proof -
  let ?k = "next_run - wall v"
  have i: "hourly_loop E ?k next_run v = (Inr next_run, idle ?k v)"
    using assms by (intro hourly_loop_idle) simp
  have d: "next_run \<le> wall (idle ?k v)"
    using assms by simp
  have "hourly_loop E (?k + Suc m) next_run v =
      io_bind (hourly_loop E ?k next_run) (\<lambda>next_run'. hourly_loop E (Suc m) next_run') v"
    by (rule hourly_loop_add)
  also have "\<dots> = hourly_loop E (Suc m) next_run (idle ?k v)"
    by (simp only: io_bind_def i prod.case sum.case)
  also have "\<dots> = io_bind (scan_and_communicate E False)
       (\<lambda>_ w'. io_bind (sleep 1) (\<lambda>_. hourly_loop E m (wall w' + 3600)) w') (idle ?k v)"
    using d by (rule hourly_loop_due)
  finally show ?thesis .
qed

lemma hourly_loop_ends_only_by_cycle:
  "(\<exists>next_run' v'. hourly_loop E n next_run v = (Inr next_run', v'))
   \<or> (\<exists>v1 e v2. scan_and_communicate E False v1 = (Inl e, v2)
         \<and> hourly_loop E n next_run v = (Inl e, v2))"
proof (induction n arbitrary: next_run v)
  case 0
  then show ?case by (simp add: io_return_def)
next
  case (Suc n)
  show ?case
  proof (cases "next_run \<le> wall v")
    case False
    then have "hourly_loop E (Suc n) next_run v = hourly_loop E n next_run (snd (sleep 1 v))"
      by (simp add: run_pending_def io_bind_def sleep_def)
    with Suc.IH [of next_run "snd (sleep 1 v)"] show ?thesis by simp
  next
    case True
    obtain r v2 where s: "scan_and_communicate E False v = (r, v2)"
      by (cases "scan_and_communicate E False v")
    show ?thesis
    proof (cases r)
      case (Inl e)
      with s True have "hourly_loop E (Suc n) next_run v = (Inl e, v2)"
        by (simp add: run_pending_def io_bind_def)
      with s Inl show ?thesis by blast
    next
      case (Inr u)
      with s True have "hourly_loop E (Suc n) next_run v =
          hourly_loop E n (wall v2 + 3600) (snd (sleep 1 v2))"
        by (simp add: run_pending_def io_bind_def sleep_def)
      with Suc.IH [of "wall v2 + 3600" "snd (sleep 1 v2)"] show ?thesis by simp
    qed
  qed
qed

lemma hourly_scheduler_loop:
  "hourly_scheduler E n w = hourly_loop E n (wall w + 3600) (started w)"
  by (simp add: hourly_scheduler_def every_1_hours_do_def io_bind_def logging_def started_def)

text \<open>
  C2, as the code has it. \<^verbatim>\<open>hourly_scheduler\<close> does not run the cycle when it starts: it
  registers it for one hour later and polls once per second. Its first 3600 rounds, the
  polls made 0 s to 3599 s after the start, run nothing and only sleep (first conjunct).
  The next round, the poll made when the hour has elapsed, runs the cycle for the first
  time (second conjunct). Whenever a run is pending at \<open>next_run\<close>, the rounds before that
  moment only sleep and the round at that moment runs the cycle, after whose return the
  next run is set one hour later (third conjunct): so cycles follow one another at one
  hour after each return. The loop has no exit of its own: after any number of rounds it is
  either still going or was ended by an exception of a cycle (fourth conjunct).
\<close>

theorem first_cycle_after_one_hour:
  assumes "n \<le> 3600" and "wall v \<le> next_run"
  shows "hourly_scheduler E n w = (Inr (wall w + 3600), idle n (started w))
       \<and> hourly_scheduler E (3600 + Suc m) w =
           io_bind (scan_and_communicate E False)
             (\<lambda>_ w'. io_bind (sleep 1) (\<lambda>_. hourly_loop E m (wall w' + 3600)) w')
             (idle 3600 (started w))
       \<and> hourly_loop E (next_run - wall v + Suc m) next_run v =
           io_bind (scan_and_communicate E False)
             (\<lambda>_ w'. io_bind (sleep 1) (\<lambda>_. hourly_loop E m (wall w' + 3600)) w')
             (idle (next_run - wall v) v)
       \<and> ((\<exists>next_run' w'. hourly_scheduler E k w = (Inr next_run', w'))
          \<or> (\<exists>v1 e v2. scan_and_communicate E False v1 = (Inl e, v2)
                \<and> hourly_scheduler E k w = (Inl e, v2)))"
proof -
  have w: "wall (started w) = wall w" by (simp add: started_def)
  have a: "hourly_scheduler E n w = (Inr (wall w + 3600), idle n (started w))"
    using assms(1) by (simp add: hourly_scheduler_loop hourly_loop_idle w)
  have b: "hourly_scheduler E (3600 + Suc m) w =
           io_bind (scan_and_communicate E False)
             (\<lambda>_ w'. io_bind (sleep 1) (\<lambda>_. hourly_loop E m (wall w' + 3600)) w')
             (idle 3600 (started w))"
    using hourly_loop_next_cycle [of "started w" "wall w + 3600" E m]
    by (simp add: hourly_scheduler_loop w)
  show ?thesis
    using a b hourly_loop_next_cycle [OF assms(2), of E m]
      hourly_loop_ends_only_by_cycle [of E k "wall w + 3600" "started w"]
    by (simp add: hourly_scheduler_loop)
qed

theorem first_cycle_after_one_hour_witness:
  "(3600::nat) \<le> 3600 \<and> wall world0 \<le> 3600
   \<and> hourly_scheduler quiet_env 3600 world0 =
       (Inr (wall world0 + 3600), idle 3600 (started world0))
   \<and> hourly_scheduler quiet_env (3600 + Suc 0) world0 =
       io_bind (scan_and_communicate quiet_env False)
         (\<lambda>_ w'. io_bind (sleep 1) (\<lambda>_. hourly_loop quiet_env 0 (wall w' + 3600)) w')
         (idle 3600 (started world0))
   \<and> hourly_loop quiet_env (3600 - wall world0 + Suc 0) 3600 world0 =
       io_bind (scan_and_communicate quiet_env False)
         (\<lambda>_ w'. io_bind (sleep 1) (\<lambda>_. hourly_loop quiet_env 0 (wall w' + 3600)) w')
         (idle (3600 - wall world0) world0)"
  using first_cycle_after_one_hour [where n = 3600 and v = world0 and next_run = 3600
      and E = quiet_env and w = world0 and m = 0 and k = 0]
  by (simp add: world0_def)

text \<open>
  The claim as the specification states it fails: in the quiet world the scheduler's first
  3600 rounds (one hour) leave only its own announcement in the log, and no call but the
  3600 sleeps was made. No cycle ran at the start.
\<close>

theorem no_cycle_at_start:
  "hourly_scheduler quiet_env 3600 world0 = (Inr 3600, idle 3600 (started world0))
   \<and> log (snd (hourly_scheduler quiet_env 3600 world0))
       = [(INFO, ''Hourly auto-scan running. Ctrl+C to stop.'')]
   \<and> events (snd (hourly_scheduler quiet_env 3600 world0)) = replicate 3600 (Sleep 1)"
proof -
  have "hourly_scheduler quiet_env 3600 world0 = (Inr 3600, idle 3600 (started world0))"
    by (simp add: hourly_scheduler_loop hourly_loop_idle started_def world0_def)
  then show ?thesis by (simp add: idle_def started_def world0_def)
qed

subsection \<open>Decoding what the encoder wrote\<close>

text \<open>Strings: every escape the encoder writes is read back as the character it stands for.\<close>

lemma of_char_lt_256: "(of_char c :: nat) < 256"
  by (cases c) (simp add: of_char_def)  

lemma hex_value_hex_char: "d < 16 \<Longrightarrow> hex_value (hex_char d) = Some d"
  by (auto simp: hex_value_def hex_char_def Let_def)

lemma decode_escape:
  "decode_uXXXX CHR ''0'' CHR ''0'' (hex_char ((of_char c :: nat) div 16)) (hex_char ((of_char c :: nat) mod 16))
     = Some (of_char c)"
proof -
  have "(of_char c :: nat) div 16 < 16"
    using of_char_lt_256 [of c] by (simp add: div_less_iff_less_mult)
  then show ?thesis
    by (simp add: decode_uXXXX_def hex_value_hex_char) (simp add: hex_value_def)
qed

lemma prepend_Some [simp]: "prepend c (Some (s, rest)) = Some (c # s, rest)"
  by (simp add: prepend_def)

lemma scanstring_escape_char:
  "scanstring rest' = Some (s, rest) \<Longrightarrow> scanstring (escape_char c @ rest') = Some (c # s, rest)"
proof -
  assume r: "scanstring rest' = Some (s, rest)"
  consider (bs) "c = CHR 0x5C" | (q) "c = CHR 0x22"
    | (pr) "c \<noteq> CHR 0x5C" "c \<noteq> CHR 0x22" "32 \<le> (of_char c :: nat)" "(of_char c :: nat) \<le> 126"
    | (b) "c = CHR 0x08" | (f) "c = CHR 0x0C" | (n) "c = CHR 0x0A" | (cr) "c = CHR 0x0D" | (t) "c = CHR 0x09"
    | (u) "c \<noteq> CHR 0x5C" "c \<noteq> CHR 0x22" "\<not> (32 \<le> (of_char c :: nat) \<and> (of_char c :: nat) \<le> 126)"
        "c \<noteq> CHR 0x08" "c \<noteq> CHR 0x0C" "c \<noteq> CHR 0x0A" "c \<noteq> CHR 0x0D" "c \<noteq> CHR 0x09"
    by blast
  then show ?thesis
  proof cases
    case bs then show ?thesis using r by (simp add: escape_char_def backslash_def)
  next
    case q then show ?thesis using r by (simp add: escape_char_def backslash_def)
  next
    case pr then show ?thesis using r by (simp add: escape_char_def)
  next
    case b then show ?thesis using r by (simp add: escape_char_def backslash_def)
  next
    case f then show ?thesis using r by (simp add: escape_char_def backslash_def)
  next
    case n then show ?thesis using r by (simp add: escape_char_def backslash_def)
  next
    case cr then show ?thesis using r by (simp add: escape_char_def backslash_def)
  next
    case t then show ?thesis using r by (simp add: escape_char_def backslash_def)
  next
    case u
    have "escape_char c = [CHR 0x5C, CHR ''u'', CHR ''0'', CHR ''0'',
            hex_char ((of_char c :: nat) div 16), hex_char ((of_char c :: nat) mod 16)]"
      using u by (simp add: escape_char_def)
    then show ?thesis using r decode_escape [of c] of_char_lt_256 [of c] by simp
  qed
qed

lemma scanstring_escaped:
  "scanstring (concat (map escape_char s) @ CHR 0x22 # rest) = Some (s, rest)"
  by (induction s) (simp_all add: scanstring_escape_char)

lemma scanstring_encoded:
  "encode_basestring_ascii s @ rest = CHR 0x22 # t \<Longrightarrow> scanstring t = Some (s, rest)"
  using scanstring_escaped [of s rest] by (simp add: encode_basestring_ascii_def)

text \<open>Integers: the decimal digits are read back as the number.\<close>

lemma digit_char_props:
  "d < 10 \<Longrightarrow> isdigit (digit_char d) \<and> digit_value (digit_char d) = d
     \<and> (of_char (digit_char d) :: nat) = 48 + d"
  by (simp add: digit_char_def isdigit_def digit_value_def)

lemma digit_char_eq_iff: "d < 10 \<Longrightarrow> digit_char d = c \<longleftrightarrow> (of_char c :: nat) = 48 + d"
proof
  assume "d < 10" and "digit_char d = c"
  then show "(of_char c :: nat) = 48 + d" by (auto simp: digit_char_def)
next
  assume d: "d < 10" and "(of_char c :: nat) = 48 + d"
  then have "char_of (of_char c :: nat) = char_of (48 + d)" by simp
  then show "digit_char d = c" by (simp add: digit_char_def)
qed

lemma digits_eq: "digits n = (if n < 10 then [digit_char n] else digits (n div 10) @ [digit_char (n mod 10)])"
  by (subst digits.simps) simp

lemma digits_isdigit: "list_all isdigit (digits n)"
proof (induction n rule: digits.induct)
  case (1 n)
  then show ?case
    by (subst digits_eq) (auto simp: digit_char_props)
qed

lemma digits_value_snoc: "digits_value (ds @ [c]) = 10 * digits_value ds + digit_value c"
  by (simp add: digits_value_def)

lemma digits_value_digits: "digits_value (digits n) = n"
proof (induction n rule: digits.induct)
  case (1 n)
  show ?case
  proof (cases "n < 10")
    case True
    then show ?thesis
      by (subst digits_eq) (simp add: digits_value_def digit_char_props)
  next
    case False
    with 1 have "digits_value (digits (n div 10)) = n div 10" by simp
    with False show ?thesis
      by (subst digits_eq) (simp add: digits_value_snoc digit_char_props)
  qed
qed

lemma digits_first: "\<exists>d cs. d < 10 \<and> (0 < n \<longrightarrow> 0 < d) \<and> digits n = digit_char d # cs"
proof (induction n rule: digits.induct)
  case (1 n)
  show ?case
  proof (cases "n < 10")
    case True
    then show ?thesis by (subst digits_eq) auto
  next
    case False
    then have "0 < n div 10" by simp
    with 1 False obtain d cs where "d < 10" "0 < d" "digits (n div 10) = digit_char d # cs"
      by blast
    with False show ?thesis by (subst digits_eq) auto
  qed
qed

lemma follows_cases: "follows s \<Longrightarrow> s = [] \<or> (\<exists>r. s = CHR '','' # r) \<or> (\<exists>r. s = CHR 0x0A # r)"
  by (auto simp: follows_def split: list.splits)

lemma follows_not_float: "follows s \<Longrightarrow> \<not> is_frac s \<and> \<not> is_exp s"
  by (auto dest!: follows_cases simp: is_frac_def is_exp_def split: list.splits)

lemma follows_while:
  assumes "follows s" and "list_all isdigit cs"
  shows "takeWhile isdigit (cs @ s) = cs \<and> dropWhile isdigit (cs @ s) = s"
proof -
  have "s = [] \<or> \<not> isdigit (hd s)"
    using follows_cases [OF assms(1)] by (auto simp: isdigit_def)
  then show ?thesis
    using assms(2)
    by (cases s) (auto simp: list_all_iff takeWhile_append2 dropWhile_append2)
qed

lemma match_integer_digits:
  assumes "follows rest"
  shows "match_integer (digits n @ rest) = Some (digits n, rest)"
proof -
  obtain d cs where d: "d < 10" "0 < n \<longrightarrow> 0 < d" and e: "digits n = digit_char d # cs"
    using digits_first by blast
  have all: "list_all isdigit (digit_char d # cs)"
    using digits_isdigit [of n] e by simp
  show ?thesis
  proof (cases "n = 0")
    case True
    have "digit_char 0 = CHR ''0''" by (simp add: digit_char_eq_iff)
    with True show ?thesis
      by (subst (1 2) digits_eq) (simp add: match_integer_def isdigit_def)
  next
    case False
    then have "digit_char d \<noteq> CHR ''0''"
      using d by (simp add: digit_char_eq_iff)
    then show ?thesis
      using all follows_while [OF assms, of cs] by (simp add: e match_integer_def)
  qed
qed

lemma match_number_int_str:
  assumes "follows rest"
  shows "match_number (int_str i @ rest) = Some (JInt i, rest)"
proof (cases "i < 0")
  case True
  then show ?thesis
    using match_integer_digits [OF assms, of "nat (- i)"] follows_not_float [OF assms]
    by (simp add: match_number_def int_str_def digits_value_digits)
next
  case False
  obtain d cs where d: "d < 10" and e: "digits (nat i) = digit_char d # cs"
    using digits_first by blast
  have "digit_char d \<noteq> CHR ''-''"
    using d by (simp add: digit_char_eq_iff)
  moreover have "digits_value (digit_char d # cs) = nat i"
    using digits_value_digits [of "nat i"] e by simp
  ultimately show ?thesis
    using False match_integer_digits [OF assms, of "nat i"] follows_not_float [OF assms] e
    by (simp add: match_number_def int_str_def)
qed

lemma int_str_first:
  "\<exists>c cs. int_str i = c # cs \<and> (c = CHR ''-'' \<or> isdigit c)"
proof -
  obtain d cs where "d < 10" "digits (nat i) = digit_char d # cs"
    using digits_first by blast
  then show ?thesis
    using digit_char_props [of d] by (auto simp: int_str_def)
qed

lemma scan_once_int_str:
  assumes "follows rest"
  shows "scan_once (Suc n) (int_str i @ rest) = Some (JInt i, rest)"
proof -
  obtain c cs where e: "int_str i = c # cs" and c: "c = CHR ''-'' \<or> isdigit c"
    using int_str_first by blast
  have "c \<noteq> CHR 0x22 \<and> c \<noteq> CHR ''{'' \<and> c \<noteq> CHR ''['' \<and> c \<noteq> CHR ''n'' \<and> c \<noteq> CHR ''t'' \<and> c \<noteq> CHR ''f''"
    using c by (auto simp: isdigit_def)
  then show ?thesis
    using match_number_int_str [OF assms, of i] by (simp add: e)
qed

text \<open>Whitespace, first characters, dicts with distinct keys, and single steps of the decoder.\<close>

lemma skip_ws_nonws: "\<not> is_ws c \<Longrightarrow> skip_ws (c # s) = c # s"
  by (simp add: skip_ws_def)

lemma skip_ws_newline_indent: "skip_ws (newline_indent l @ s) = skip_ws s"
proof -
  have "skip_ws (replicate k CHR '' '' @ s) = skip_ws s" for k
    by (induction k) (simp_all add: skip_ws_def is_ws_def)
  then show ?thesis
    by (simp add: newline_indent_def skip_ws_def is_ws_def)
qed

lemma skip_ws_space: "skip_ws (CHR '' '' # s) = skip_ws s"
  by (simp add: skip_ws_def is_ws_def)

lemma follows_newline_indent: "follows (newline_indent l @ s)"
  by (simp add: follows_def newline_indent_def)

lemma follows_comma: "follows (CHR '','' # s)"
  by (simp add: follows_def)

lemma follows_Nil: "follows []"
  by (simp add: follows_def)

lemma iterencode_first:
  "\<exists>c r. iterencode lvl v = c # r \<and> \<not> is_ws c \<and> c \<noteq> CHR '']''"
proof (cases v)
  case (JInt i)
  obtain c cs where "int_str i = c # cs" "c = CHR ''-'' \<or> isdigit c"
    using int_str_first by blast
  then show ?thesis using JInt by (auto simp: is_ws_def isdigit_def)
next
  case (JList xs)
  then show ?thesis by (cases xs) (simp_all add: is_ws_def)
next
  case (JDict kvs)
  then show ?thesis by (cases kvs) (simp_all add: is_ws_def)
qed (simp_all add: is_ws_def encode_basestring_ascii_def)

lemma iterencode_items_first:
  "xs \<noteq> [] \<Longrightarrow> \<exists>c r. iterencode_items lvl xs = c # r \<and> \<not> is_ws c \<and> c \<noteq> CHR '']''"
proof (cases xs)
  case Nil
  assume "xs \<noteq> []"
  with Nil show ?thesis by simp
next
  case (Cons x ys)
  obtain c r where "iterencode lvl x = c # r" "\<not> is_ws c" "c \<noteq> CHR '']''"
    using iterencode_first by blast
  then show ?thesis using Cons by (cases ys) simp_all
qed

lemma iterencode_members_first:
  "kvs \<noteq> [] \<Longrightarrow> \<exists>r. iterencode_members lvl kvs = CHR 0x22 # r"
proof (cases kvs)
  case Nil
  assume "kvs \<noteq> []"
  with Nil show ?thesis by simp
next
  case (Cons kv rest)
  then show ?thesis
    by (cases kv; cases rest) (simp_all add: encode_basestring_ascii_def)
qed

lemma setitem_fresh: "k \<notin> fst ` set d \<Longrightarrow> setitem d k v = d @ [(k, v)]"
  by (induction d) auto

lemma dict_distinct_aux:
  "distinct (map fst (d @ pairs)) \<Longrightarrow> foldl (\<lambda>d (k, v). setitem d k v) d pairs = d @ pairs"
proof (induction pairs arbitrary: d)
  case Nil
  then show ?case by simp
next
  case (Cons p pairs)
  obtain k v where p: "p = (k, v)" by (cases p)
  have "k \<notin> fst ` set d" using Cons.prems p by auto
  then have s: "setitem d k v = d @ [(k, v)]" by (rule setitem_fresh)
  have "distinct (map fst ((d @ [(k, v)]) @ pairs))" using Cons.prems p by simp
  from Cons.IH [OF this] show ?case using p s by simp
qed

lemma dict_distinct: "distinct (map fst pairs) \<Longrightarrow> dict pairs = pairs"
  using dict_distinct_aux [of "[]" pairs] by (simp add: dict_def)

lemma JSONArray_last:
  "scan_once m s = Some (x, tail) \<Longrightarrow> skip_ws tail = CHR '']'' # rest \<Longrightarrow>
   JSONArray (Suc m) s = Some ([x], rest)"
  by simp

lemma JSONArray_more:
  "scan_once m s = Some (x, CHR '','' # t) \<Longrightarrow> JSONArray m (skip_ws t) = Some (ys, rest) \<Longrightarrow>
   JSONArray (Suc m) s = Some (x # ys, rest)"
  by (simp add: skip_ws_def is_ws_def)

lemma JSONObject_last:
  "scanstring s = Some (k, CHR '':'' # t) \<Longrightarrow> scan_once m (skip_ws t) = Some (v, tail) \<Longrightarrow>
   skip_ws tail = CHR ''}'' # rest \<Longrightarrow> JSONObject (Suc m) s = Some ([(k, v)], rest)"
  by (simp add: skip_ws_def is_ws_def)

lemma JSONObject_more:
  "scanstring s = Some (k, CHR '':'' # t) \<Longrightarrow>
   scan_once m (skip_ws t) = Some (v, CHR '','' # t') \<Longrightarrow>
   skip_ws t' = CHR 0x22 # t'' \<Longrightarrow> JSONObject m t'' = Some (kvs, rest) \<Longrightarrow>
   JSONObject (Suc m) s = Some ((k, v) # kvs, rest)"
  by (simp add: skip_ws_def is_ws_def)

lemma scan_once_list:
  "skip_ws cs = d # r \<Longrightarrow> d \<noteq> CHR '']'' \<Longrightarrow> JSONArray n (d # r) = Some (xs, rest) \<Longrightarrow>
   scan_once (Suc n) (CHR ''['' # cs) = Some (JList xs, rest)"
  by simp

lemma scan_once_dict:
  "skip_ws cs = CHR 0x22 # r \<Longrightarrow> JSONObject n r = Some (kvs, rest) \<Longrightarrow>
   scan_once (Suc n) (CHR ''{'' # cs) = Some (JDict (dict kvs), rest)"
  by simp

subsection \<open>The persisted file reads back\<close>

text \<open>
  The decoder, started on the encoding of a value, returns that value and stops right
  behind it, given as much depth as the value needs and given that what follows is nothing,
  a comma or a newline. The same for the items of a list up to the closing bracket, and for
  the members of a dict up to the closing brace.
\<close>

lemma decode_encoded:
  "depth v \<le> n \<Longrightarrow> distinct_keys v \<Longrightarrow> follows rest \<Longrightarrow>
     scan_once n (iterencode lvl v @ rest) = Some (v, rest)"
  "xs \<noteq> [] \<Longrightarrow> depth_items xs \<le> n \<Longrightarrow> distinct_keys_items xs \<Longrightarrow> follows tail \<Longrightarrow>
     skip_ws tail = CHR '']'' # rest \<Longrightarrow>
     JSONArray n (iterencode_items lvl xs @ tail) = Some (xs, rest)"
  "kvs \<noteq> [] \<Longrightarrow> depth_members kvs \<le> n \<Longrightarrow> distinct_keys_members kvs \<Longrightarrow> follows tail \<Longrightarrow>
     skip_ws tail = CHR ''}'' # rest \<Longrightarrow>
     JSONObject n (tl (iterencode_members lvl kvs) @ tail) = Some (kvs, rest)"
proof (induction lvl v and lvl xs and lvl kvs arbitrary: n rest and n tail rest and n tail rest
       rule: iterencode_iterencode_items_iterencode_members.induct)
  case (1 lvl)
  then obtain m where "n = Suc m" by (cases n) auto
  then show ?case by simp
next
  case (2 lvl b)
  then obtain m where "n = Suc m" by (cases n) auto
  then show ?case by simp
next
  case (3 lvl i)
  then obtain m where "n = Suc m" by (cases n) auto
  then show ?case using 3 by (simp add: scan_once_int_str)
next
  case (4 lvl s)
  then obtain m where "n = Suc m" by (cases n) auto
  then show ?case
    using scanstring_escaped [of s rest] by (simp add: encode_basestring_ascii_def)
next
  case (5 lvl)
  then obtain m where "n = Suc m" by (cases n) auto
  then show ?case by (simp add: skip_ws_def is_ws_def)
next
  case (6 lvl x xs)
  from "6.prems" obtain m where n: "n = Suc m" and m: "depth_items (x # xs) \<le> m"
    by (cases n) auto
  let ?tail = "newline_indent lvl @ CHR '']'' # rest"
  have t: "skip_ws ?tail = CHR '']'' # rest"
    by (simp add: skip_ws_newline_indent skip_ws_nonws is_ws_def)
  have a: "JSONArray m (iterencode_items (Suc lvl) (x # xs) @ ?tail) = Some (x # xs, rest)"
    using "6.IH" [of m ?tail rest] m "6.prems" t by (simp add: follows_newline_indent)
  obtain c r where c: "iterencode_items (Suc lvl) (x # xs) = c # r" "\<not> is_ws c" "c \<noteq> CHR '']''"
    using iterencode_items_first [of "x # xs" "Suc lvl"] by auto
  have s: "skip_ws (newline_indent (Suc lvl) @ iterencode_items (Suc lvl) (x # xs) @ ?tail)
             = c # (r @ ?tail)"
    using c by (simp add: skip_ws_newline_indent skip_ws_nonws)
  have "scan_once (Suc m) (CHR ''['' # newline_indent (Suc lvl)
           @ iterencode_items (Suc lvl) (x # xs) @ ?tail) = Some (JList (x # xs), rest)"
    using a c by (intro scan_once_list [OF s]) simp_all
  then show ?case using n by simp
next
  case (7 lvl)
  then obtain m where "n = Suc m" by (cases n) auto
  then show ?case by (simp add: skip_ws_def is_ws_def)
next
  case (8 lvl kv kvs)
  from "8.prems" obtain m where n: "n = Suc m" and m: "depth_members (kv # kvs) \<le> m"
    by (cases n) auto
  let ?tail = "newline_indent lvl @ CHR ''}'' # rest"
  have t: "skip_ws ?tail = CHR ''}'' # rest"
    by (simp add: skip_ws_newline_indent skip_ws_nonws is_ws_def)
  have a: "JSONObject m (tl (iterencode_members (Suc lvl) (kv # kvs)) @ ?tail)
             = Some (kv # kvs, rest)"
    using "8.IH" [of m ?tail rest] m "8.prems" t by (simp add: follows_newline_indent)
  obtain r where c: "iterencode_members (Suc lvl) (kv # kvs) = CHR 0x22 # r"
    using iterencode_members_first [of "kv # kvs" "Suc lvl"] by auto
  have s: "skip_ws (newline_indent (Suc lvl) @ iterencode_members (Suc lvl) (kv # kvs) @ ?tail)
             = CHR 0x22 # (r @ ?tail)"
    using c by (simp add: skip_ws_newline_indent skip_ws_nonws is_ws_def)
  have "scan_once (Suc m) (CHR ''{'' # newline_indent (Suc lvl)
           @ iterencode_members (Suc lvl) (kv # kvs) @ ?tail)
          = Some (JDict (dict (kv # kvs)), rest)"
    using a c by (intro scan_once_dict [OF s]) simp
  moreover have "dict (kv # kvs) = kv # kvs"
    using "8.prems" by (intro dict_distinct) simp
  ultimately show ?case using n by simp
next
  case (9 lvl)
  then show ?case by simp
next
  case (10 lvl x)
  from "10.prems" obtain m where n: "n = Suc m" and m: "depth x \<le> m"
    by (cases n) auto
  have "scan_once m (iterencode lvl x @ tail) = Some (x, tail)"
    using "10.IH" [of m tail] m "10.prems" by simp
  then show ?case
    using n "10.prems" by (simp add: JSONArray_last)
next
  case (11 lvl x y ys)
  from "11.prems" obtain m where n: "n = Suc m" and m: "depth x \<le> m" "depth_items (y # ys) \<le> m"
    by (cases n) auto
  let ?t = "newline_indent lvl @ iterencode_items lvl (y # ys) @ tail"
  obtain c r where c: "iterencode_items lvl (y # ys) = c # r" "\<not> is_ws c"
    using iterencode_items_first [of "y # ys" lvl] by auto
  have s: "skip_ws ?t = iterencode_items lvl (y # ys) @ tail"
    using c by (simp add: skip_ws_newline_indent skip_ws_nonws)
  have a: "scan_once m (iterencode lvl x @ CHR '','' # ?t) = Some (x, CHR '','' # ?t)"
    using "11.IH"(1) [of m "CHR '','' # ?t"] m "11.prems" by (simp add: follows_comma)
  have b: "JSONArray m (skip_ws ?t) = Some (y # ys, rest)"
    using "11.IH"(2) [of m tail rest] m "11.prems" s by simp
  show ?case
    using JSONArray_more [OF a b] n by simp
next
  case (12 lvl)
  then show ?case by simp
next
  case (13 lvl k v)
  from "13.prems" obtain m where n: "n = Suc m" and m: "depth v \<le> m"
    by (cases n) auto
  let ?s = "tl (encode_basestring_ascii k) @ '': '' @ iterencode lvl v @ tail"
  obtain c r where c: "iterencode lvl v = c # r" "\<not> is_ws c"
    using iterencode_first by blast
  have k: "scanstring ?s = Some (k, CHR '':'' # CHR '' '' # iterencode lvl v @ tail)"
    using scanstring_escaped [of k "'': '' @ iterencode lvl v @ tail"]
    by (simp add: encode_basestring_ascii_def)
  have w: "skip_ws (CHR '' '' # iterencode lvl v @ tail) = iterencode lvl v @ tail"
    using c by (simp add: skip_ws_space skip_ws_nonws)
  have a: "scan_once m (skip_ws (CHR '' '' # iterencode lvl v @ tail)) = Some (v, tail)"
    using "13.IH" [of m tail] m "13.prems" w by simp
  have "JSONObject (Suc m) ?s = Some ([(k, v)], rest)"
    using "13.prems" by (intro JSONObject_last [OF k a]) simp
  then show ?case using n by (simp add: encode_basestring_ascii_def)
next
  case (14 lvl k v kv kvs)
  from "14.prems" obtain m where n: "n = Suc m"
    and m: "depth v \<le> m" "depth_members (kv # kvs) \<le> m"
    by (cases n) auto
  let ?t = "newline_indent lvl @ iterencode_members lvl (kv # kvs) @ tail"
  let ?s = "tl (encode_basestring_ascii k) @ '': '' @ iterencode lvl v @ CHR '','' # ?t"
  obtain c r where c: "iterencode lvl v = c # r" "\<not> is_ws c"
    using iterencode_first by blast
  obtain q where q: "iterencode_members lvl (kv # kvs) = CHR 0x22 # q"
    using iterencode_members_first [of "kv # kvs" lvl] by auto
  have k: "scanstring ?s = Some (k, CHR '':'' # CHR '' '' # iterencode lvl v @ CHR '','' # ?t)"
    using scanstring_escaped [of k "'': '' @ iterencode lvl v @ CHR '','' # ?t"]
    by (simp add: encode_basestring_ascii_def)
  have w: "skip_ws (CHR '' '' # iterencode lvl v @ CHR '','' # ?t)
             = iterencode lvl v @ CHR '','' # ?t"
    using c by (simp add: skip_ws_space skip_ws_nonws)
  have a: "scan_once m (skip_ws (CHR '' '' # iterencode lvl v @ CHR '','' # ?t))
             = Some (v, CHR '','' # ?t)"
    using "14.IH"(1) [of m "CHR '','' # ?t"] m "14.prems" w by (simp add: follows_comma)
  have s: "skip_ws ?t = CHR 0x22 # (q @ tail)"
    using q by (simp add: skip_ws_newline_indent skip_ws_nonws is_ws_def)
  have b: "JSONObject m (q @ tail) = Some (kv # kvs, rest)"
    using "14.IH"(2) [of m tail rest] m "14.prems" q by simp
  have "JSONObject (Suc m) ?s = Some ((k, v) # kv # kvs, rest)"
    by (rule JSONObject_more [OF k a s b])
  then show ?case using n by (simp add: encode_basestring_ascii_def)
qed


lemma depth_le_length:
  "depth v \<le> length (iterencode lvl v)"
  "depth_items xs \<le> Suc (length (iterencode_items lvl xs))"
  "depth_members kvs \<le> Suc (length (iterencode_members lvl kvs))"
proof (induction lvl v and lvl xs and lvl kvs
       rule: iterencode_iterencode_items_iterencode_members.induct)
  case (3 lvl i)
  obtain c cs where "int_str i = c # cs" using int_str_first by blast
  then show ?case by simp
next
  case (4 lvl s)
  then show ?case by (simp add: encode_basestring_ascii_def)
qed (simp_all add: newline_indent_def)

text \<open>Reading back what \<^verbatim>\<open>json.dump(data, f, indent=4)\<close> wrote gives \<open>data\<close>.\<close>

lemma json_roundtrip:
  assumes "distinct_keys data"
  shows "json_loads (json_dumps data) = Some data"
proof -
  obtain c r where c: "iterencode 0 data = c # r" "\<not> is_ws c"
    using iterencode_first by blast
  have "scan_once (length (iterencode 0 data)) (iterencode 0 data @ []) = Some (data, [])"
    using assms by (intro decode_encoded(1) depth_le_length(1) follows_Nil)
  then show ?thesis
    using c by (simp add: json_loads_def json_dumps_def skip_ws_nonws) (simp add: skip_ws_def)
qed

lemma replace_no_colon: "CHR '':'' \<notin> set (replace CHR '':'' CHR ''-'' ts)"
  by (auto simp: replace_def)

text \<open>
  C3. Let \<open>data\<close> be a value Python can hold (the keys of each dict distinct), and let
  the directory be created and the file written without error. Then one call of
  \<^verbatim>\<open>write_json\<close> returns normally and changes exactly one file: the one in the
  sub-directory whose name is the prefix, an underscore, the timestamp with every colon
  replaced by a hyphen (no colon is left in it), and \<^verbatim>\<open>.json\<close>. Its content is the dump
  of \<open>data\<close>, and loading that content gives \<open>data\<close> again.
\<close>

theorem write_json_roundtrip:
  assumes keys: "distinct_keys data"
    and dir: "makedirs_result E (tick w) (path_join (base_dir E) subdir) = None"
    and written: "write_result E (tick w + 2)
           (json_filename (path_join (base_dir E) subdir) prefix
              (utcnow_isoformat E (tick w + 1)))
           (json_dumps data) = WriteOk"
  shows "\<exists>w'. write_json E data subdir prefix w = (Inr (), w')
         \<and> files w' = (files w)
              (path_join (path_join (base_dir E) subdir)
                 (prefix @ ''_'' @ replace CHR '':'' CHR ''-'' (utcnow_isoformat E (tick w + 1))
                    @ ''.json'')
               \<mapsto> json_dumps data)
         \<and> CHR '':'' \<notin> set (replace CHR '':'' CHR ''-'' (utcnow_isoformat E (tick w + 1)))
         \<and> Option.bind
               (files w' (path_join (path_join (base_dir E) subdir)
                 (prefix @ ''_'' @ replace CHR '':'' CHR ''-'' (utcnow_isoformat E (tick w + 1))
                    @ ''.json'')))
               json_loads = Some data"
  using write_json_ok [OF dir written] json_roundtrip [OF keys] replace_no_colon
  by (simp add: json_filename_def)

theorem write_json_roundtrip_witness:
  "distinct_keys (JList [wifi_json ap1])
   \<and> makedirs_result quiet_env (tick world0) (path_join (base_dir quiet_env) ''wifi_scans'')
       = None
   \<and> write_result quiet_env (tick world0 + 2)
         (json_filename (path_join (base_dir quiet_env) ''wifi_scans'') ''wifi''
            (utcnow_isoformat quiet_env (tick world0 + 1)))
         (json_dumps (JList [wifi_json ap1])) = WriteOk
   \<and> (\<exists>w'. write_json quiet_env (JList [wifi_json ap1]) ''wifi_scans'' ''wifi'' world0
            = (Inr (), w')
        \<and> files w' =
            [''/home/u/.scanner_logs/wifi_scans/wifi_2024-05-06T07-08-09.123456.json''
               \<mapsto> json_dumps (JList [wifi_json ap1])]
        \<and> Option.bind
              (files w' ''/home/u/.scanner_logs/wifi_scans/wifi_2024-05-06T07-08-09.123456.json'')
              json_loads = Some (JList [wifi_json ap1]))"
proof -
  have k: "distinct_keys (JList [wifi_json ap1])"
    by (simp add: wifi_json_def)
  have d: "makedirs_result quiet_env (tick world0)
             (path_join (base_dir quiet_env) ''wifi_scans'') = None"
    by (simp add: quiet_env_def)
  have o: "write_result quiet_env (tick world0 + 2)
         (json_filename (path_join (base_dir quiet_env) ''wifi_scans'') ''wifi''
            (utcnow_isoformat quiet_env (tick world0 + 1)))
         (json_dumps (JList [wifi_json ap1])) = WriteOk"
    by (simp add: quiet_env_def)
  have p: "path_join (path_join (base_dir quiet_env) ''wifi_scans'')
             (''wifi'' @ ''_'' @ replace CHR '':'' CHR ''-''
                (utcnow_isoformat quiet_env (tick world0 + 1)) @ ''.json'')
           = ''/home/u/.scanner_logs/wifi_scans/wifi_2024-05-06T07-08-09.123456.json''"
    by (simp add: path_join_def replace_def quiet_env_def)
  have f: "files world0 = Map.empty"
    by (simp add: world0_def)
  from write_json_roundtrip [OF k d o] show ?thesis
    using k d o unfolding p f by blast
qed

end
